theory Spec2Isabelle
  imports Main "HOL-Library.Word" "HOL-Library.Monad_Syntax"
begin

section \<open>Ten-pin bowling: frame segmentation and scoring of BowlingGame.cpp\<close>

text \<open>
  The program keeps the raw rolls of one game in a vector of \<open>uint8_t\<close>, cuts them into
  frames (\<open>BowlingGame::processFrames\<close>, through \<open>FrameFactory::createFrame\<close>) and
  computes the running score of every frame and the total
  (\<open>BowlingGame::calculateScore\<close>, through \<open>strikeBonus\<close> and \<open>spareBonus\<close>).

  The embedding keeps the machine types: a roll is an 8-bit word, a frame's \<open>score()\<close> is
  a 16-bit word, \<open>m_scores\<close> holds 16-bit words, and the \<open>int\<close> accumulators of
  \<open>calculateScore\<close> are integers. Where C++ promotes \<open>uint8_t\<close> operands to \<open>int\<close>
  before adding or comparing, the model reads them with \<open>uint\<close>; where a result is stored
  back into a narrower type, the model converts with \<open>word_of_int\<close>, which truncates.

  Every \<open>operator[]\<close> of the source is a checked read \<open>at\<close>: reading past the end of a
  vector is undefined behaviour in C++, and the model makes it the value \<open>None\<close>, so that
  "the computation returns a result" is a statement that can be proved.
\<close>

subsection \<open>Constants and rolls\<close>

type_synonym u8 = "8 word"
type_synonym u16 = "16 word"

abbreviation PINS :: u8 where "PINS \<equiv> 10"
abbreviation FRAMES :: u8 where "FRAMES \<equiv> 10"
abbreviation BASE_SCORE :: u8 where "BASE_SCORE \<equiv> 10"

subsection \<open>Frames\<close>

text \<open>
  The class \<open>Frame\<close> holds \<open>roll1\<close> and \<open>roll2\<close>; its four subclasses are the four
  constructors. \<open>TenthFrame\<close> adds \<open>thirdRoll\<close> and \<open>thirdRollAllowed\<close>.
\<close>

datatype frame =
    is_Normal: Normal (roll1: u8) (roll2: u8)
  | is_Spare: Spare (roll1: u8) (roll2: u8)
  | is_Strike: Strike (roll1: u8) (roll2: u8)
  | is_Tenth: Tenth (roll1: u8) (roll2: u8) (thirdRoll: u8) (thirdRollAllowed: bool)

definition firstRoll :: "frame \<Rightarrow> u8" where
  "firstRoll f = roll1 f"

definition secondRoll :: "frame \<Rightarrow> u8" where
  "secondRoll f = roll2 f"

text \<open>\<open>Frame::isStrike()\<close> and \<open>Frame::isSpare()\<close>; the sum is an \<open>int\<close> sum.\<close>

definition isStrike :: "frame \<Rightarrow> bool" where
  "isStrike f \<longleftrightarrow> firstRoll f = BASE_SCORE"

definition isSpare :: "frame \<Rightarrow> bool" where
  "isSpare f \<longleftrightarrow>
     uint (firstRoll f) + uint (secondRoll f) = uint BASE_SCORE \<and> firstRoll f \<noteq> BASE_SCORE"

text \<open>The overload \<open>TenthFrame::isStrike(uint8_t pins)\<close>.\<close>

definition isStrikePins :: "u8 \<Rightarrow> bool" where
  "isStrikePins pins \<longleftrightarrow> pins = PINS"

text \<open>
  The constructors of the four classes. \<open>SpareFrame(r1)\<close> stores \<open>PINS - r1\<close>, an \<open>int\<close>,
  into a \<open>uint8_t\<close>; \<open>TenthFrame\<close> starts with \<open>thirdRollAllowed(false)\<close> and sets it in
  its body.
\<close>

definition NormalFrame :: "u8 \<Rightarrow> u8 \<Rightarrow> frame" where
  "NormalFrame r1 r2 = Normal r1 r2"

definition SpareFrame :: "u8 \<Rightarrow> frame" where
  "SpareFrame r1 = Spare r1 (word_of_int (uint PINS - uint r1))"

definition StrikeFrame :: frame where
  "StrikeFrame = Strike PINS 0"

definition TenthFrame :: "u8 \<Rightarrow> u8 \<Rightarrow> u8 \<Rightarrow> frame" where
  "TenthFrame r1 r2 r3 =
     (let f = Tenth r1 r2 r3 False
      in if isStrikePins r1 \<or> isSpare f then Tenth r1 r2 r3 True else f)"

text \<open>The virtual \<open>score()\<close>, a \<open>uint16_t\<close>.\<close>

fun score :: "frame \<Rightarrow> u16" where
  "score (Normal r1 r2) = word_of_int (uint r1 + uint r2)"
| "score (Spare r1 r2) = ucast BASE_SCORE"
| "score (Strike r1 r2) = ucast BASE_SCORE"
| "score (Tenth r1 r2 r3 a) = word_of_int (uint r1 + uint r2 + uint r3)"

subsection \<open>The factory\<close>

definition createFrame :: "u8 \<Rightarrow> u8 \<Rightarrow> u8 \<Rightarrow> u8 \<Rightarrow> frame" where
  "createFrame frameIndex r1 r2 r3 =
     (if uint frameIndex = uint FRAMES - 1 then TenthFrame r1 r2 r3
      else if r1 = BASE_SCORE then StrikeFrame
      else if uint r1 + uint r2 = uint BASE_SCORE then SpareFrame r1
      else NormalFrame r1 r2)"

subsection \<open>The game\<close>

text \<open>A checked vector read: \<open>None\<close> where C++ would read out of range.\<close>

definition at :: "'a list \<Rightarrow> nat \<Rightarrow> 'a option" where
  "at xs i = (if i < length xs then Some (xs ! i) else None)"

record game =
  m_rolls :: "u8 list"
  m_scores :: "u16 list"
  m_frames :: "frame list"

definition newGame :: game where
  "newGame = \<lparr>m_rolls = [], m_scores = [], m_frames = []\<rparr>"

definition roll :: "game \<Rightarrow> u8 \<Rightarrow> game" where
  "roll g pins = g\<lparr>m_rolls := m_rolls g @ [pins]\<rparr>"

text \<open>
  The \<open>while\<close> loop of \<open>processFrames\<close>: the state is the frame list built so far and the
  cursor \<open>i\<close> into the rolls. Each \<open>m_rolls[i++]\<close> is a checked read followed by the
  advance of the cursor.
\<close>

function processLoop :: "u8 list \<Rightarrow> frame list \<Rightarrow> nat \<Rightarrow> (frame list \<times> nat) option" where
  "processLoop rolls frames i =
     (if int (length frames) < uint FRAMES - 1 \<and> i < length rolls then
        do {
          r1 \<leftarrow> at rolls i;
          (r2, j) \<leftarrow> (if r1 \<noteq> PINS \<and> i + 1 < length rolls
                        then do { r \<leftarrow> at rolls (i + 1); Some (r, i + 2) }
                        else Some (0, i + 1));
          processLoop rolls (frames @ [createFrame (of_nat (length frames)) r1 r2 0]) j
        }
      else Some (frames, i))"
  by pat_completeness auto
termination
  by (relation "measure (\<lambda>(rolls, frames, i). length rolls - i)")
     (auto split: if_splits simp: at_def bind_eq_Some_conv)

definition processFrames :: "game \<Rightarrow> game option" where
  "processFrames g =
     (let rolls = m_rolls g in
      do {
        (frames, i) \<leftarrow> processLoop rolls [] 0;
        if i < length rolls then
          do {
            r1 \<leftarrow> at rolls i;
            (r2, j) \<leftarrow> (if i + 1 < length rolls
                          then do { r \<leftarrow> at rolls (i + 1); Some (r, i + 2) }
                          else Some (0, i + 1));
            r3 \<leftarrow> (if j < length rolls \<and> (r1 = PINS \<or> uint r1 + uint r2 = uint PINS)
                    then at rolls j else Some 0);
            Some (g\<lparr>m_frames := frames @ [createFrame (word_of_int (uint FRAMES - 1)) r1 r2 r3]\<rparr>)
          }
        else Some (g\<lparr>m_frames := frames\<rparr>)
      })"

text \<open>
  The bonus lookups. \<open>bonus\<close> is a \<open>uint8_t\<close>, so \<open>bonus += m_rolls[index + 2]\<close> is an
  8-bit addition.
\<close>

definition strikeBonus :: "u8 list \<Rightarrow> nat \<Rightarrow> u8 option" where
  "strikeBonus rolls index =
     (if index + 1 < length rolls then
        do {
          bonus \<leftarrow> at rolls (index + 1);
          if index + 2 < length rolls
          then do { b2 \<leftarrow> at rolls (index + 2); Some (bonus + b2) }
          else Some bonus
        }
      else Some 0)"

definition spareBonus :: "u8 list \<Rightarrow> nat \<Rightarrow> u8 option" where
  "spareBonus rolls index =
     (if index + 2 < length rolls then at rolls (index + 2) else Some 0)"

text \<open>
  The body of the \<open>for\<close> loop of \<open>calculateScore\<close> for the frame \<open>f = m_frames[i]\<close>. The
  loop state is \<open>(totalScore, rollIndex, m_scores)\<close>; \<open>push_back(totalScore)\<close> stores an
  \<open>int\<close> into a \<open>uint16_t\<close>. The \<open>int\<close> accumulators are unbounded integers here: a
  frame adds at most 1020, so that ten frames stay far below the range of a C++ \<open>int\<close>
  and of a \<open>uint16_t\<close> (section Bounds).
\<close>

definition scoreFrame ::
  "u8 list \<Rightarrow> frame \<Rightarrow> nat \<Rightarrow> int \<times> nat \<times> u16 list \<Rightarrow> (int \<times> nat \<times> u16 list) option" where
  "scoreFrame rolls f i st =
     (case st of (totalScore, rollIndex, scores) \<Rightarrow>
        do {
          frameScore \<leftarrow>
            (if int i < uint FRAMES - 1 then
               (if isStrike f then
                  do { b \<leftarrow> strikeBonus rolls rollIndex; Some (uint (score f) + uint b) }
                else if isSpare f then
                  do { b \<leftarrow> spareBonus rolls rollIndex; Some (uint (score f) + uint b) }
                else Some (uint (score f)))
             else Some (uint (score f)));
          let totalScore' = totalScore + frameScore in
          Some (totalScore', rollIndex + (if isStrike f then 1 else 2),
                scores @ [word_of_int totalScore'])
        })"

function calcLoop ::
  "u8 list \<Rightarrow> frame list \<Rightarrow> nat \<Rightarrow> int \<times> nat \<times> u16 list \<Rightarrow> (int \<times> nat \<times> u16 list) option" where
  "calcLoop rolls frames i st =
     (if i < length frames then
        do {
          f \<leftarrow> at frames i;
          st' \<leftarrow> scoreFrame rolls f i st;
          calcLoop rolls frames (i + 1) st'
        }
      else Some st)"
  by pat_completeness auto
termination
  by (relation "measure (\<lambda>(rolls, frames, i, st). length frames - i)") auto

definition calculateScore :: "game \<Rightarrow> (int \<times> game) option" where
  "calculateScore g =
     do {
       (totalScore, rollIndex, scores) \<leftarrow> calcLoop (m_rolls g) (m_frames g) 0 (0, 0, []);
       Some (totalScore, g\<lparr>m_scores := scores\<rparr>)
     }"

text \<open>
  The sequence of calls of \<open>main\<close>, for any rolls: record each roll, segment, score. The
  result is the returned total and the final game, whose \<open>m_frames\<close> and \<open>m_scores\<close> are
  what \<open>displayBoard\<close> prints.
\<close>

definition runGame :: "u8 list \<Rightarrow> (int \<times> game) option" where
  "runGame rs = do { g \<leftarrow> processFrames (foldl roll newGame rs); calculateScore g }"

section \<open>Notions of the specification\<close>

text \<open>
  The specification speaks of rolls that were validated on input, of the roll at a
  position "or 0 if that position is past the end", of the cursor \<open>rollIndex\<close> "that
  starts at 0 and advances by 1 for a strike frame and by 2 otherwise", and of what a
  frame contributes to the total. These are written here once, as executable functions,
  and the theorems below relate the program to them.
\<close>

text \<open>
  The rolls that \<open>getValidatedInput\<close> lets through: it rejects \<open>pins < 0 || pins > PINS\<close>.
\<close>

definition validRolls :: "u8 list \<Rightarrow> bool" where
  "validRolls rolls = list_all (\<lambda>r. r \<le> PINS) rolls"

definition rollOrZero :: "u8 list \<Rightarrow> nat \<Rightarrow> u8" where
  "rollOrZero rolls k = (if k < length rolls then rolls ! k else 0)"

fun rollIndexAt :: "frame list \<Rightarrow> nat \<Rightarrow> nat" where
  "rollIndexAt frames 0 = 0"
| "rollIndexAt frames (Suc i) = rollIndexAt frames i + (if isStrike (frames ! i) then 1 else 2)"

text \<open>
  What frame \<open>k\<close> adds to the total: its \<open>score()\<close>, and below the tenth position the
  bonus read from the rolls at the cursor. The strike bonus is the 8-bit sum the program
  forms.
\<close>

definition framePoints :: "u8 list \<Rightarrow> frame list \<Rightarrow> nat \<Rightarrow> int" where
  "framePoints rolls frames k =
     (let f = frames ! k; c = rollIndexAt frames k in
      uint (score f) +
      (if k < 9 then
         (if isStrike f then uint (rollOrZero rolls (c + 1) + rollOrZero rolls (c + 2))
          else if isSpare f then uint (rollOrZero rolls (c + 2))
          else 0)
       else 0))"

fun cumulative :: "u8 list \<Rightarrow> frame list \<Rightarrow> nat \<Rightarrow> int" where
  "cumulative rolls frames 0 = 0"
| "cumulative rolls frames (Suc k) = cumulative rolls frames k + framePoints rolls frames k"

definition scoreBoard :: "u8 list \<Rightarrow> frame list \<Rightarrow> u16 list" where
  "scoreBoard rolls frames =
     map (\<lambda>k. word_of_int (cumulative rolls frames (Suc k))) [0..<length frames]"

text \<open>
  The contribution of frame \<open>k\<close> as it can be read off a score board: the difference of
  two neighbouring cumulative entries.
\<close>

definition frameContribution :: "u16 list \<Rightarrow> nat \<Rightarrow> int" where
  "frameContribution scores k =
     uint (scores ! k) - (if k = 0 then 0 else uint (scores ! (k - 1)))"

text \<open>
  The frames the factory builds below the tenth position: the stored rolls agree with
  the variant.
\<close>

definition regular :: "frame \<Rightarrow> bool" where
  "regular f =
     (case f of
        Normal a b \<Rightarrow> a \<noteq> PINS \<and> uint a + uint b \<noteq> 10
      | Spare a b \<Rightarrow> a \<noteq> PINS \<and> uint a + uint b = 10
      | Strike a b \<Rightarrow> a = PINS \<and> b = 0
      | Tenth a b c d \<Rightarrow> False)"

text \<open>
  The tenth frame as the specification describes it, read from the rolls at cursor \<open>c\<close>:
  the roll at \<open>c\<close>, the roll after it if there is one, and a third roll only if the first
  is 10 or the first two sum to 10 and a further roll exists. An absent roll is 0.
\<close>

definition tenthFrameAt :: "u8 list \<Rightarrow> nat \<Rightarrow> frame" where
  "tenthFrameAt rolls c =
     (let r1 = rolls ! c;
          r2 = rollOrZero rolls (c + 1);
          allowed = (r1 = PINS \<or> uint r1 + uint r2 = 10)
      in Tenth r1 r2 (if allowed then rollOrZero rolls (c + 2) else 0) allowed)"

text \<open>
  Twenty rolls without a strike or a spare: each of the ten consecutive pairs sums to
  less than 10.
\<close>

definition openFrames :: "u8 list \<Rightarrow> bool" where
  "openFrames rolls =
     list_all (\<lambda>k. uint (rolls ! (2 * k)) + uint (rolls ! (2 * k + 1)) < 10) [0..<10]"

section \<open>The loops\<close>

declare processLoop.simps [simp del] calcLoop.simps [simp del] cumulative.simps(2) [simp del]

lemma at_in_range [simp]: "i < length xs \<Longrightarrow> at xs i = Some (xs ! i)"
  by (simp add: at_def)

lemma foldl_roll_newGame:
  "foldl roll newGame rs = \<lparr>m_rolls = rs, m_scores = [], m_frames = []\<rparr>"
  by (induction rs rule: rev_induct) (simp_all add: roll_def newGame_def)

subsection \<open>Segmentation\<close>

lemma processLoop_stop:
  "\<not> (length frames < 9 \<and> i < length rolls) \<Longrightarrow> processLoop rolls frames i = Some (frames, i)"
  by (subst processLoop.simps) auto

lemma processLoop_step:
  "length frames < 9 \<Longrightarrow> i < length rolls \<Longrightarrow>
   processLoop rolls frames i =
     processLoop rolls
       (frames @ [createFrame (of_nat (length frames)) (rolls ! i)
                    (if rolls ! i \<noteq> PINS \<and> i + 1 < length rolls then rolls ! (i + 1) else 0) 0])
       (if rolls ! i \<noteq> PINS \<and> i + 1 < length rolls then i + 2 else i + 1)"
  by (subst processLoop.simps) auto

text \<open>
  An invariant rule for the \<open>while\<close> loop: the loop returns, in a state that satisfies the
  invariant and falsifies the loop condition.
\<close>

lemma processLoop_rule:
  assumes init: "I frames i"
    and step: "\<And>fs k. I fs k \<Longrightarrow> length fs < 9 \<Longrightarrow> k < length rolls \<Longrightarrow>
      I (fs @ [createFrame (of_nat (length fs)) (rolls ! k)
                 (if rolls ! k \<noteq> PINS \<and> k + 1 < length rolls then rolls ! (k + 1) else 0) 0])
        (if rolls ! k \<noteq> PINS \<and> k + 1 < length rolls then k + 2 else k + 1)"
  shows "\<exists>fs' k'. processLoop rolls frames i = Some (fs', k') \<and> I fs' k' \<and>
           \<not> (length fs' < 9 \<and> k' < length rolls)"
  using init
proof (induction "length rolls - i" arbitrary: frames i rule: less_induct)
  case less
  show ?case
  proof (cases "length frames < 9 \<and> i < length rolls")
    case False
    with less.prems show ?thesis
      by (simp add: processLoop_stop)
  next
    case True
    let ?j = "if rolls ! i \<noteq> PINS \<and> i + 1 < length rolls then i + 2 else i + 1"
    let ?fs = "frames @ [createFrame (of_nat (length frames)) (rolls ! i)
                    (if rolls ! i \<noteq> PINS \<and> i + 1 < length rolls then rolls ! (i + 1) else 0) 0]"
    have "I ?fs ?j"
      using step [OF less.prems] True by blast
    moreover have "length rolls - ?j < length rolls - i"
      using True by auto
    ultimately have "\<exists>fs' k'. processLoop rolls ?fs ?j = Some (fs', k') \<and> I fs' k' \<and>
           \<not> (length fs' < 9 \<and> k' < length rolls)"
      by (rule less.hyps [rotated])
    then show ?thesis
      using True by (simp only: processLoop_step [of frames i rolls])
  qed
qed

lemma uint_word8_of_int:
  "0 \<le> x \<Longrightarrow> x < 256 \<Longrightarrow> uint (word_of_int x :: u8) = x"
  by (simp add: uint_word_of_int take_bit_int_eq_self)

lemma uint_word16_of_int:
  "0 \<le> x \<Longrightarrow> x < 65536 \<Longrightarrow> uint (word_of_int x :: u16) = x"
  by (simp add: uint_word_of_int take_bit_int_eq_self)

lemma uint_u8_less: "uint (r :: u8) < 256"
  using uint_bounded [of r] by simp

lemma uint_frame_index: "n < 9 \<Longrightarrow> uint (of_nat n :: u8) = int n"
  by (simp add: uint_nat unat_of_nat)

lemma uint_spare_second:
  "uint r1 + uint r2 = 10 \<Longrightarrow> uint (word_of_int (uint PINS - uint r1) :: u8) = 10 - uint r1"
proof -
  assume "uint r1 + uint r2 = 10"
  then have "0 \<le> 10 - uint r1" "10 - uint r1 < 256"
    using uint_ge_0 [of r2] uint_ge_0 [of r1] by linarith+
  then have "uint (word_of_int (10 - uint r1) :: u8) = 10 - uint r1"
    by (rule uint_word8_of_int)
  then show ?thesis by simp
qed

lemma createFrame_regular: "n < 9 \<Longrightarrow> regular (createFrame (of_nat n) r1 r2 r3)"
  using uint_spare_second [of r1 r2]
  by (simp add: createFrame_def uint_frame_index regular_def StrikeFrame_def SpareFrame_def
      NormalFrame_def del: of_nat_diff)

lemma is_Tenth_TenthFrame: "is_Tenth (TenthFrame r1 r2 r3)"
  by (simp add: TenthFrame_def Let_def)

lemma createFrame_tenth: "createFrame 9 r1 r2 r3 = TenthFrame r1 r2 r3"
  by (simp add: createFrame_def)

lemma rollIndexAt_append:
  "n \<le> length fs \<Longrightarrow> rollIndexAt (fs @ gs) n = rollIndexAt fs n"
  by (induction n) (simp_all add: nth_append)

lemma isStrike_createFrame:
  "n < 9 \<Longrightarrow> isStrike (createFrame (of_nat n) r1 r2 r3) \<longleftrightarrow> r1 = PINS"
  by (simp add: createFrame_def uint_frame_index StrikeFrame_def SpareFrame_def NormalFrame_def
      isStrike_def firstRoll_def del: of_nat_diff)

text \<open>
  The invariant of the segmentation loop: at most nine frames, all regular, and as long
  as rolls remain the cursor of the loop is the cursor \<open>rollIndexAt\<close> of the frames
  built so far.
\<close>

lemma processLoop_regular:
  assumes "length frames \<le> 9" and "list_all regular frames"
    and "i < length rolls \<longrightarrow> i = rollIndexAt frames (length frames)"
  shows "\<exists>fs' k'. processLoop rolls frames i = Some (fs', k') \<and>
           (length fs' \<le> 9 \<and> list_all regular fs' \<and>
            (k' < length rolls \<longrightarrow> k' = rollIndexAt fs' (length fs'))) \<and>
           \<not> (length fs' < 9 \<and> k' < length rolls)"
proof (rule processLoop_rule [where I = "\<lambda>fs k. length fs \<le> 9 \<and> list_all regular fs \<and>
            (k < length rolls \<longrightarrow> k = rollIndexAt fs (length fs))"])
  show "length frames \<le> 9 \<and> list_all regular frames \<and>
          (i < length rolls \<longrightarrow> i = rollIndexAt frames (length frames))"
    using assms by simp
next
  fix fs :: "frame list" and k :: nat
  let ?f = "createFrame (of_nat (length fs)) (rolls ! k)
              (if rolls ! k \<noteq> PINS \<and> k + 1 < length rolls then rolls ! (k + 1) else 0) 0"
  let ?k = "if rolls ! k \<noteq> PINS \<and> k + 1 < length rolls then k + 2 else k + 1"
  assume inv: "length fs \<le> 9 \<and> list_all regular fs \<and>
            (k < length rolls \<longrightarrow> k = rollIndexAt fs (length fs))"
    and n: "length fs < 9" and k: "k < length rolls"
  have cur: "k = rollIndexAt fs (length fs)"
    using inv k by simp
  have "rollIndexAt (fs @ [?f]) (Suc (length fs)) =
          rollIndexAt fs (length fs) + (if rolls ! k = PINS then 1 else 2)"
    using n by (simp add: rollIndexAt_append isStrike_createFrame)
  then have "?k < length rolls \<longrightarrow> ?k = rollIndexAt (fs @ [?f]) (length (fs @ [?f]))"
    using cur by auto
  moreover have "length (fs @ [?f]) \<le> 9 \<and> list_all regular (fs @ [?f])"
    using inv n by (simp add: createFrame_regular)
  ultimately show "length (fs @ [?f]) \<le> 9 \<and> list_all regular (fs @ [?f]) \<and>
      (?k < length rolls \<longrightarrow> ?k = rollIndexAt (fs @ [?f]) (length (fs @ [?f])))"
    by blast
qed

lemma processFrames_no_tenth:
  "processLoop (m_rolls g) [] 0 = Some (fs, k) \<Longrightarrow> \<not> k < length (m_rolls g) \<Longrightarrow>
   processFrames g = Some (g\<lparr>m_frames := fs\<rparr>)"
  by (simp add: processFrames_def)

lemma processFrames_tenth:
  "processLoop (m_rolls g) [] 0 = Some (fs, k) \<Longrightarrow> k < length (m_rolls g) \<Longrightarrow>
   processFrames g =
     Some (g\<lparr>m_frames := fs @
       [TenthFrame (m_rolls g ! k) (rollOrZero (m_rolls g) (k + 1))
          (if k + 2 < length (m_rolls g) \<and>
              (m_rolls g ! k = PINS \<or> uint (m_rolls g ! k) + uint (m_rolls g ! (k + 1)) = 10)
           then m_rolls g ! (k + 2) else 0)]\<rparr>)"
  by (auto simp add: processFrames_def Let_def createFrame_tenth rollOrZero_def)

text \<open>
  The frame that the tenth-frame branch builds at cursor \<open>k\<close> is the tenth frame of the
  specification at \<open>k\<close>: in particular a third roll that was not bowled, or that the
  first two rolls do not allow, is stored as 0.
\<close>

lemma TenthFrame_at:
  "k < length rolls \<Longrightarrow>
   TenthFrame (rolls ! k) (rollOrZero rolls (k + 1))
     (if k + 2 < length rolls \<and>
         (rolls ! k = PINS \<or> uint (rolls ! k) + uint (rolls ! (k + 1)) = 10)
      then rolls ! (k + 2) else 0) =
   tenthFrameAt rolls k"
  by (auto simp add: TenthFrame_def tenthFrameAt_def Let_def isStrikePins_def isSpare_def
      firstRoll_def secondRoll_def rollOrZero_def)

text \<open>
  Segmentation returns for every game: at most ten frames, regular ones below the tenth
  position, and at the tenth position the tenth frame read at the cursor of the nine
  frames before it.
\<close>

lemma processFrames_struct:
  "\<exists>F. processFrames g = Some (g\<lparr>m_frames := F\<rparr>) \<and> length F \<le> 10 \<and>
       list_all regular (take 9 F) \<and> (length F = 10 \<longrightarrow> is_Tenth (F ! 9)) \<and>
       (length F = 10 \<longrightarrow>
          rollIndexAt F 9 < length (m_rolls g) \<and>
          F ! 9 = tenthFrameAt (m_rolls g) (rollIndexAt F 9))"
proof -
  obtain fs k where loop: "processLoop (m_rolls g) [] 0 = Some (fs, k)"
    and len: "length fs \<le> 9" and reg: "list_all regular fs"
    and cur: "k < length (m_rolls g) \<longrightarrow> k = rollIndexAt fs (length fs)"
    and exit: "\<not> (length fs < 9 \<and> k < length (m_rolls g))"
    using processLoop_regular [of "[]" 0 "m_rolls g"] by auto
  show ?thesis
  proof (cases "k < length (m_rolls g)")
    case False
    then have "processFrames g = Some (g\<lparr>m_frames := fs\<rparr>)"
      using loop by (rule processFrames_no_tenth [rotated])
    then show ?thesis using len reg by auto
  next
    case True
    then have nine: "length fs = 9" using exit len by simp
    have k: "k = rollIndexAt fs 9" using cur True nine by simp
    let ?F = "fs @ [tenthFrameAt (m_rolls g) k]"
    have pf: "processFrames g = Some (g\<lparr>m_frames := ?F\<rparr>)"
      using processFrames_tenth [OF loop True] TenthFrame_at [OF True] by simp
    have idx: "rollIndexAt ?F 9 = k"
      using rollIndexAt_append [of 9 fs] nine k by simp
    have "is_Tenth (?F ! 9)" and "?F ! 9 = tenthFrameAt (m_rolls g) k"
      using nine by (simp_all add: nth_append tenthFrameAt_def Let_def)
    then show ?thesis
      using pf idx nine reg True by auto
  qed
qed

subsection \<open>Scoring\<close>

lemma calcLoop_stop: "\<not> i < length frames \<Longrightarrow> calcLoop rolls frames i st = Some st"
  by (subst calcLoop.simps) simp

lemma calcLoop_step:
  "i < length frames \<Longrightarrow>
   calcLoop rolls frames i st =
     scoreFrame rolls (frames ! i) i st \<bind> calcLoop rolls frames (i + 1)"
  by (subst calcLoop.simps) simp

lemma strikeBonus_eq:
  "strikeBonus rolls c = Some (rollOrZero rolls (c + 1) + rollOrZero rolls (c + 2))"
  by (simp add: strikeBonus_def rollOrZero_def)

lemma spareBonus_eq: "spareBonus rolls c = Some (rollOrZero rolls (c + 2))"
  by (simp add: spareBonus_def rollOrZero_def)

lemma scoreFrame_eq:
  "scoreFrame rolls (frames ! i) i (cumulative rolls frames i, rollIndexAt frames i, scores) =
     Some (cumulative rolls frames (Suc i), rollIndexAt frames (Suc i),
           scores @ [word_of_int (cumulative rolls frames (Suc i))])"
  by (simp add: scoreFrame_def framePoints_def strikeBonus_eq spareBonus_eq Let_def
      cumulative.simps(2))

text \<open>
  The \<open>for\<close> loop, started in the state the specification's functions describe at frame
  \<open>i\<close>, ends in the state they describe at the last frame.
\<close>

lemma calcLoop_char:
  "i \<le> length frames \<Longrightarrow>
   calcLoop rolls frames i (cumulative rolls frames i, rollIndexAt frames i, scores) =
     Some (cumulative rolls frames (length frames), rollIndexAt frames (length frames),
           scores @ map (\<lambda>k. word_of_int (cumulative rolls frames (Suc k))) [i..<length frames])"
proof (induction "length frames - i" arbitrary: i scores)
  case 0
  then show ?case by (simp add: calcLoop_stop)
next
  case (Suc n)
  then have lt: "i < length frames" and n: "n = length frames - (i + 1)"
    and le: "i + 1 \<le> length frames"
    by auto
  have "calcLoop rolls frames i (cumulative rolls frames i, rollIndexAt frames i, scores) =
        calcLoop rolls frames (i + 1) (cumulative rolls frames (Suc i), rollIndexAt frames (Suc i),
           scores @ [word_of_int (cumulative rolls frames (Suc i))])"
    using lt by (simp add: calcLoop_step scoreFrame_eq del: rollIndexAt.simps)
  also have "\<dots> = Some (cumulative rolls frames (length frames), rollIndexAt frames (length frames),
           (scores @ [word_of_int (cumulative rolls frames (Suc i))]) @
             map (\<lambda>k. word_of_int (cumulative rolls frames (Suc k))) [i + 1..<length frames])"
    using Suc.hyps(1) [OF n le] by simp
  finally show ?case
    using lt by (simp add: upt_conv_Cons del: rollIndexAt.simps)
qed

lemma calculateScore_char:
  "calculateScore g =
     Some (cumulative (m_rolls g) (m_frames g) (length (m_frames g)),
           g\<lparr>m_scores := scoreBoard (m_rolls g) (m_frames g)\<rparr>)"
  using calcLoop_char [of 0 "m_frames g" "m_rolls g" "[]"]
  by (simp add: calculateScore_def scoreBoard_def)

text \<open>Segmentation followed by scoring returns, for every roll sequence.\<close>

lemma runGame_char:
  "\<exists>F. runGame rolls =
          Some (cumulative rolls F (length F),
                \<lparr>m_rolls = rolls, m_scores = scoreBoard rolls F, m_frames = F\<rparr>) \<and>
       length F \<le> 10 \<and> list_all regular (take 9 F) \<and> (length F = 10 \<longrightarrow> is_Tenth (F ! 9)) \<and>
       (length F = 10 \<longrightarrow>
          rollIndexAt F 9 < length rolls \<and> F ! 9 = tenthFrameAt rolls (rollIndexAt F 9))"
proof -
  let ?g = "\<lparr>m_rolls = rolls, m_scores = [], m_frames = []\<rparr>"
  obtain F where pf: "processFrames ?g = Some (?g\<lparr>m_frames := F\<rparr>)"
    and F: "length F \<le> 10" "list_all regular (take 9 F)" "length F = 10 \<longrightarrow> is_Tenth (F ! 9)"
      "length F = 10 \<longrightarrow>
          rollIndexAt F 9 < length rolls \<and> F ! 9 = tenthFrameAt rolls (rollIndexAt F 9)"
    using processFrames_struct [of ?g] by auto
  have "runGame rolls = calculateScore (?g\<lparr>m_frames := F\<rparr>)"
    by (simp add: runGame_def foldl_roll_newGame pf)
  then show ?thesis
    using F by (simp add: calculateScore_char)
qed

subsection \<open>Bounds: no entry of the score board is truncated\<close>

lemma uint_score_Normal: "uint (score (Normal a b)) = uint a + uint b"
proof -
  have "uint a + uint b < 65536" "0 \<le> uint a + uint b"
    using uint_u8_less [of a] uint_u8_less [of b] by simp_all
  then have "uint (word_of_int (uint a + uint b) :: u16) = uint a + uint b"
    by (simp only: uint_word16_of_int)
  then show ?thesis by (simp only: score.simps)
qed

lemma uint_score_Tenth: "uint (score (Tenth a b c d)) = uint a + uint b + uint c"
proof -
  have "uint a + uint b + uint c < 65536" "0 \<le> uint a + uint b + uint c"
    using uint_u8_less [of a] uint_u8_less [of b] uint_u8_less [of c] by simp_all
  then have "uint (word_of_int (uint a + uint b + uint c) :: u16) = uint a + uint b + uint c"
    by (simp only: uint_word16_of_int)
  then show ?thesis by (simp only: score.simps)
qed

lemma uint_score_le: "uint (score f) \<le> 765"
proof (cases f)
  case (Normal a b)
  then show ?thesis
    using uint_u8_less [of a] uint_u8_less [of b]
    by (simp add: uint_score_Normal del: score.simps)
next
  case (Tenth a b c d)
  then show ?thesis
    using uint_u8_less [of a] uint_u8_less [of b] uint_u8_less [of c]
    by (simp add: uint_score_Tenth del: score.simps)
qed simp_all

lemma framePoints_bounds: "0 \<le> framePoints rolls frames k \<and> framePoints rolls frames k \<le> 1020"
proof -
  have s: "uint (score (frames ! k)) \<le> 765" by (rule uint_score_le)
  have b: "uint w \<le> 255" for w :: u8 using uint_u8_less [of w] by simp
  show ?thesis
    using s b [of "rollOrZero rolls (rollIndexAt frames k + 1) + rollOrZero rolls (rollIndexAt frames k + 2)"]
      b [of "rollOrZero rolls (rollIndexAt frames k + 2)"]
    by (simp add: framePoints_def Let_def)
qed

lemma cumulative_bounds:
  "0 \<le> cumulative rolls frames k \<and> cumulative rolls frames k \<le> 1020 * int k"
proof (induction k)
  case 0
  show ?case by simp
next
  case (Suc k)
  then show ?case
    using framePoints_bounds [of rolls frames k] by (simp add: cumulative.simps(2))
qed

lemma cumulative_mono: "j \<le> k \<Longrightarrow> cumulative rolls frames j \<le> cumulative rolls frames k"
proof (induction k)
  case 0
  then show ?case by simp
next
  case (Suc k)
  then show ?case
    using framePoints_bounds [of rolls frames k]
    by (cases "j = Suc k") (auto simp: cumulative.simps(2))
qed

lemma uint_cumulative_word:
  "k \<le> 10 \<Longrightarrow> uint (word_of_int (cumulative rolls frames k) :: u16) = cumulative rolls frames k"
proof -
  assume "k \<le> 10"
  then have "cumulative rolls frames k < 65536" "0 \<le> cumulative rolls frames k"
    using cumulative_bounds [of rolls frames k] by auto
  then show ?thesis by (simp add: uint_word16_of_int)
qed

lemma length_scoreBoard [simp]: "length (scoreBoard rolls F) = length F"
  by (simp add: scoreBoard_def)

lemma scoreBoard_nth:
  "k < length F \<Longrightarrow> length F \<le> 10 \<Longrightarrow>
   uint (scoreBoard rolls F ! k) = cumulative rolls F (Suc k)"
  using uint_cumulative_word [of "Suc k" rolls F] by (simp add: scoreBoard_def)

lemma scoreBoard_sorted:
  assumes "length F \<le> 10"
  shows "sorted (scoreBoard rolls F)"
proof -
  have "scoreBoard rolls F ! i \<le> scoreBoard rolls F ! j" if "i \<le> j" "j < length F" for i j
  proof -
    have "i < length F" using that by simp
    then show ?thesis
      using cumulative_mono [of "Suc i" "Suc j" rolls F] that assms
      by (simp add: word_le_def scoreBoard_nth)
  qed
  then show ?thesis
    by (simp add: sorted_iff_nth_mono)
qed

lemma scoreBoard_last:
  assumes "F \<noteq> []" and "length F \<le> 10"
  shows "uint (last (scoreBoard rolls F)) = cumulative rolls F (length F)"
proof -
  from assms(1) obtain m where m: "length F = Suc m" by (cases F) auto
  have "last (scoreBoard rolls F) = scoreBoard rolls F ! m"
    using m by (simp add: last_conv_nth [of "scoreBoard rolls F"] length_0_conv [symmetric]
        del: length_0_conv)
  then show ?thesis
    using scoreBoard_nth [of m F rolls] assms(2) m by simp
qed

lemma frameContribution_scoreBoard:
  assumes "k < length F" and "length F \<le> 10"
  shows "frameContribution (scoreBoard rolls F) k = framePoints rolls F k"
proof (cases k)
  case 0
  then show ?thesis
    using assms scoreBoard_nth [of 0 F rolls]
    by (simp add: frameContribution_def cumulative.simps(2))
next
  case (Suc j)
  then show ?thesis
    using assms scoreBoard_nth [of k F rolls] scoreBoard_nth [of j F rolls]
    by (simp add: frameContribution_def cumulative.simps(2))
qed

subsection \<open>Frames below the tenth position\<close>

lemma regular_is_Strike: "regular f \<Longrightarrow> is_Strike f \<longleftrightarrow> isStrike f"
  by (cases f) (auto simp: regular_def isStrike_def firstRoll_def)

lemma regular_is_Spare: "regular f \<Longrightarrow> is_Spare f \<longleftrightarrow> isSpare f"
  by (cases f) (auto simp: regular_def isSpare_def firstRoll_def secondRoll_def)

lemma isSpare_not_isStrike: "isSpare f \<Longrightarrow> \<not> isStrike f"
  by (simp add: isSpare_def isStrike_def)

lemma uint_valid_sum:
  "a \<le> PINS \<Longrightarrow> b \<le> PINS \<Longrightarrow> uint (a + b) = uint a + uint (b :: u8)"
proof -
  assume "a \<le> PINS" "b \<le> PINS"
  then have "uint a \<le> 10" "uint b \<le> 10" by (simp_all add: word_le_def)
  then have "uint a + uint b < 2 ^ LENGTH(8)" by simp
  then show ?thesis by (simp add: uint_add_lem [THEN iffD1])
qed

lemma rollOrZero_valid: "validRolls rolls \<Longrightarrow> rollOrZero rolls k \<le> PINS"
  by (simp add: validRolls_def rollOrZero_def list_all_length)

section \<open>Properties of scoring\<close>

text \<open>
  C9. For every roll sequence the cumulative scores are non-decreasing, and the value
  \<open>calculateScore\<close> returns is the last cumulative entry, or 0 when no frame was
  segmented.
\<close>

theorem scores_nondecreasing:
  "\<exists>total g. runGame rolls = Some (total, g) \<and> sorted (m_scores g) \<and>
     length (m_scores g) = length (m_frames g) \<and>
     total = (if m_frames g = [] then 0 else uint (last (m_scores g)))"
proof -
  obtain F where run: "runGame rolls =
          Some (cumulative rolls F (length F),
                \<lparr>m_rolls = rolls, m_scores = scoreBoard rolls F, m_frames = F\<rparr>)"
    and len: "length F \<le> 10"
    using runGame_char [of rolls] by blast
  show ?thesis
    using run scoreBoard_sorted [OF len, of rolls] scoreBoard_last [OF _ len, of rolls]
    by simp
qed

text \<open>
  C8. For every roll sequence, segmentation followed by scoring returns a result: no read
  of a vector is out of range. The score board has one entry for each segmented frame,
  of which there are at most ten, and a bonus lookup past the end of the rolls
  contributes 0.
\<close>

theorem runGame_returns:
  "\<exists>total g. runGame rolls = Some (total, g) \<and> m_rolls g = rolls \<and>
     length (m_scores g) = length (m_frames g) \<and> length (m_frames g) \<le> 10 \<and>
     (\<forall>c. \<exists>b. strikeBonus rolls c = Some b \<and>
        (length rolls \<le> c + 1 \<longrightarrow> b = 0) \<and>
        (c + 1 < length rolls \<and> length rolls \<le> c + 2 \<longrightarrow> b = rolls ! (c + 1))) \<and>
     (\<forall>c. \<exists>b. spareBonus rolls c = Some b \<and> (length rolls \<le> c + 2 \<longrightarrow> b = 0))"
proof -
  obtain F where run: "runGame rolls =
          Some (cumulative rolls F (length F),
                \<lparr>m_rolls = rolls, m_scores = scoreBoard rolls F, m_frames = F\<rparr>)"
    and len: "length F \<le> 10"
    using runGame_char [of rolls] by blast
  have "\<exists>b. strikeBonus rolls c = Some b \<and>
        (length rolls \<le> c + 1 \<longrightarrow> b = 0) \<and>
        (c + 1 < length rolls \<and> length rolls \<le> c + 2 \<longrightarrow> b = rolls ! (c + 1))" for c
    by (simp add: strikeBonus_eq rollOrZero_def)
  moreover have "\<exists>b. spareBonus rolls c = Some b \<and> (length rolls \<le> c + 2 \<longrightarrow> b = 0)" for c
    by (simp add: spareBonus_eq rollOrZero_def)
  ultimately show ?thesis
    using run len by simp
qed

theorem runGame_returns_witness:
  "runGame [10, 5] =
     Some (20, \<lparr>m_rolls = [10, 5], m_scores = [15, 20], m_frames = [Strike 10 0, Normal 5 0]\<rparr>) \<and>
   strikeBonus [10, 5] 0 = Some 5 \<and> strikeBonus [10, 5] 1 = Some 0 \<and>
   spareBonus [10, 5] 0 = Some 0 \<and>
   (\<exists>total g. runGame [10, 5] = Some (total, g) \<and> length (m_scores g) = length (m_frames g) \<and>
      length (m_frames g) \<le> 10)"
proof -
  have "runGame [10, 5] =
     Some (20, \<lparr>m_rolls = [10, 5], m_scores = [15, 20], m_frames = [Strike 10 0, Normal 5 0]\<rparr>)"
    by code_simp
  moreover have "strikeBonus [10, 5] 0 = Some 5" "strikeBonus [10, 5] 1 = Some 0"
    "spareBonus [10, 5] 0 = Some 0"
    by (simp_all add: strikeBonus_def spareBonus_def)
  ultimately show ?thesis
    using runGame_returns [of "[10, 5]"] by simp
qed

text \<open>
  C2. For validated rolls and the frames segmented from them, with the cursor
  \<open>rollIndexAt\<close>: a Strike frame below the tenth position gets as bonus the sum of the
  rolls at cursor + 1 and cursor + 2, a Spare frame the roll at cursor + 2, a position past
  the end counting 0. The frame then adds 10 plus that bonus to the total.
\<close>

theorem bonus_lookahead:
  assumes valid: "validRolls rolls"
  shows "\<exists>total g. runGame rolls = Some (total, g) \<and>
     (\<forall>i. i < length (m_frames g) \<and> i < 9 \<longrightarrow>
        (is_Strike (m_frames g ! i) \<longrightarrow>
           (\<exists>b. strikeBonus rolls (rollIndexAt (m_frames g) i) = Some b \<and>
                uint b = uint (rollOrZero rolls (rollIndexAt (m_frames g) i + 1)) +
                         uint (rollOrZero rolls (rollIndexAt (m_frames g) i + 2))) \<and>
           frameContribution (m_scores g) i =
             10 + (uint (rollOrZero rolls (rollIndexAt (m_frames g) i + 1)) +
                   uint (rollOrZero rolls (rollIndexAt (m_frames g) i + 2)))) \<and>
        (is_Spare (m_frames g ! i) \<longrightarrow>
           spareBonus rolls (rollIndexAt (m_frames g) i) =
             Some (rollOrZero rolls (rollIndexAt (m_frames g) i + 2)) \<and>
           frameContribution (m_scores g) i =
             10 + uint (rollOrZero rolls (rollIndexAt (m_frames g) i + 2))))"
proof -
  obtain F where run: "runGame rolls =
          Some (cumulative rolls F (length F),
                \<lparr>m_rolls = rolls, m_scores = scoreBoard rolls F, m_frames = F\<rparr>)"
    and len: "length F \<le> 10" and reg: "list_all regular (take 9 F)"
    using runGame_char [of rolls] by blast
  have sum: "uint (rollOrZero rolls j + rollOrZero rolls k) =
             uint (rollOrZero rolls j) + uint (rollOrZero rolls k)" for j k
    using valid by (simp add: uint_valid_sum rollOrZero_valid)
  have strike: "frameContribution (scoreBoard rolls F) i =
          10 + (uint (rollOrZero rolls (rollIndexAt F i + 1)) +
                uint (rollOrZero rolls (rollIndexAt F i + 2)))"
    if "i < length F" "i < 9" "is_Strike (F ! i)" for i
  proof -
    have r: "regular (F ! i)" using reg that by (simp add: list_all_length)
    then have "isStrike (F ! i)" using that by (simp add: regular_is_Strike)
    moreover have "uint (score (F ! i)) = 10" using that by (cases "F ! i") simp_all
    ultimately have "framePoints rolls F i =
          10 + (uint (rollOrZero rolls (rollIndexAt F i + 1)) +
                uint (rollOrZero rolls (rollIndexAt F i + 2)))"
      using that by (simp add: framePoints_def Let_def sum)
    then show ?thesis
      using frameContribution_scoreBoard [OF that(1) len, of rolls] by simp
  qed
  have spare: "frameContribution (scoreBoard rolls F) i =
          10 + uint (rollOrZero rolls (rollIndexAt F i + 2))"
    if "i < length F" "i < 9" "is_Spare (F ! i)" for i
  proof -
    have r: "regular (F ! i)" using reg that by (simp add: list_all_length)
    then have "isSpare (F ! i)" using that by (simp add: regular_is_Spare)
    moreover from this have "\<not> isStrike (F ! i)" by (rule isSpare_not_isStrike)
    moreover have "uint (score (F ! i)) = 10" using that by (cases "F ! i") simp_all
    ultimately have "framePoints rolls F i = 10 + uint (rollOrZero rolls (rollIndexAt F i + 2))"
      using that by (simp add: framePoints_def Let_def)
    then show ?thesis
      using frameContribution_scoreBoard [OF that(1) len, of rolls] by simp
  qed
  show ?thesis
    using run strike spare by (simp add: strikeBonus_eq spareBonus_eq sum)
qed

theorem bonus_lookahead_witness:
  "validRolls [10, 3, 7, 5] \<and>
   runGame [10, 3, 7, 5] =
     Some (40, \<lparr>m_rolls = [10, 3, 7, 5], m_scores = [20, 35, 40],
                m_frames = [Strike 10 0, Spare 3 7, Normal 5 0]\<rparr>) \<and>
   strikeBonus [10, 3, 7, 5] 0 = Some 10 \<and> frameContribution [20, 35, 40] 0 = 10 + (3 + 7) \<and>
   spareBonus [10, 3, 7, 5] 1 = Some 5 \<and> frameContribution [20, 35, 40] 1 = 10 + 5"
proof -
  let ?rolls = "[10, 3, 7, 5] :: u8 list"
  let ?g = "\<lparr>m_rolls = ?rolls, m_scores = [20, 35, 40],
             m_frames = [Strike 10 0, Spare 3 7, Normal 5 0]\<rparr>"
  have v: "validRolls ?rolls"
    by (simp add: validRolls_def)
  have run: "runGame ?rolls = Some (40, ?g)"
    by code_simp
  have c0: "rollIndexAt (m_frames ?g) 0 = 0" and c1: "rollIndexAt (m_frames ?g) 1 = 1"
    by (simp_all add: isStrike_def firstRoll_def)
  obtain total g where g: "runGame ?rolls = Some (total, g)"
    and all: "\<forall>i. i < length (m_frames g) \<and> i < 9 \<longrightarrow>
        (is_Strike (m_frames g ! i) \<longrightarrow>
           (\<exists>b. strikeBonus ?rolls (rollIndexAt (m_frames g) i) = Some b \<and>
                uint b = uint (rollOrZero ?rolls (rollIndexAt (m_frames g) i + 1)) +
                         uint (rollOrZero ?rolls (rollIndexAt (m_frames g) i + 2))) \<and>
           frameContribution (m_scores g) i =
             10 + (uint (rollOrZero ?rolls (rollIndexAt (m_frames g) i + 1)) +
                   uint (rollOrZero ?rolls (rollIndexAt (m_frames g) i + 2)))) \<and>
        (is_Spare (m_frames g ! i) \<longrightarrow>
           spareBonus ?rolls (rollIndexAt (m_frames g) i) =
             Some (rollOrZero ?rolls (rollIndexAt (m_frames g) i + 2)) \<and>
           frameContribution (m_scores g) i =
             10 + uint (rollOrZero ?rolls (rollIndexAt (m_frames g) i + 2)))"
    using bonus_lookahead [OF v] by blast
  have eq: "g = ?g" using g run by simp
  have "frameContribution [20, 35, 40] 0 = 10 + (3 + 7)"
    using all [rule_format, of 0] c0 by (simp add: eq rollOrZero_def)
  moreover have "spareBonus ?rolls 1 = Some 5 \<and> frameContribution [20, 35, 40] 1 = 10 + 5"
    using all [rule_format, of 1] c1 by (simp add: eq rollOrZero_def)
  moreover have "strikeBonus ?rolls 0 = Some 10"
    using all [rule_format, of 0] c0 by (auto simp add: eq rollOrZero_def word_uint_eq_iff)
  ultimately show ?thesis
    using v run by simp
qed

text \<open>
  The sum of the two bonus rolls is formed in a \<open>uint8_t\<close>. For rolls that
  \<open>getValidatedInput\<close> would reject it can wrap around, which is why the theorem above
  speaks of validated rolls.
\<close>

lemma strikeBonus_wraps: "strikeBonus [10, 200, 100] 0 = Some 44"
  by (simp add: strikeBonus_def)

text \<open>
  C3. A \<open>TenthFrame\<close> stands only at the tenth position, and the tenth position holds
  one. Its rolls are read at the cursor \<open>c\<close> of the nine frames before it: \<open>roll1\<close> is
  the roll at \<open>c\<close>, \<open>roll2\<close> the roll at \<open>c + 1\<close> or 0 if there is none, and
  \<open>thirdRoll\<close> the roll at \<open>c + 2\<close> if the first roll is 10 or the first two sum to 10,
  and 0 if that roll is absent or not allowed. What the frame adds to the total is
  \<open>roll1 + roll2 + thirdRoll\<close>. At the tenth position the loop body adds the frame's
  \<open>score()\<close> and nothing else, whatever the frame's rolls are. The tenth frame
  (10, 4, 3) scores 17.
\<close>

theorem tenth_frame_contribution:
  "\<exists>total g. runGame rolls = Some (total, g) \<and>
     (length (m_frames g) = 10 \<longrightarrow> is_Tenth (m_frames g ! 9)) \<and>
     (\<forall>i. i < length (m_frames g) \<and> is_Tenth (m_frames g ! i) \<longrightarrow>
        i = 9 \<and>
        rollIndexAt (m_frames g) 9 < length rolls \<and>
        roll1 (m_frames g ! i) = rolls ! rollIndexAt (m_frames g) 9 \<and>
        roll2 (m_frames g ! i) = rollOrZero rolls (rollIndexAt (m_frames g) 9 + 1) \<and>
        thirdRollAllowed (m_frames g ! i) =
          (roll1 (m_frames g ! i) = PINS \<or>
           uint (roll1 (m_frames g ! i)) + uint (roll2 (m_frames g ! i)) = 10) \<and>
        thirdRoll (m_frames g ! i) =
          (if thirdRollAllowed (m_frames g ! i)
           then rollOrZero rolls (rollIndexAt (m_frames g) 9 + 2) else 0) \<and>
        (length rolls \<le> rollIndexAt (m_frames g) 9 + 2 \<longrightarrow> thirdRoll (m_frames g ! i) = 0) \<and>
        frameContribution (m_scores g) i =
          uint (roll1 (m_frames g ! i)) + uint (roll2 (m_frames g ! i)) +
          uint (thirdRoll (m_frames g ! i)) \<and>
        total = uint (m_scores g ! 8) + frameContribution (m_scores g) i) \<and>
     (\<forall>f t c sc. scoreFrame rolls f 9 (t, c, sc) =
        Some (t + uint (score f), c + (if isStrike f then 1 else 2),
              sc @ [word_of_int (t + uint (score f))])) \<and>
     uint (score (TenthFrame 10 4 3)) = 17"
proof -
  obtain F where run: "runGame rolls =
          Some (cumulative rolls F (length F),
                \<lparr>m_rolls = rolls, m_scores = scoreBoard rolls F, m_frames = F\<rparr>)"
    and len: "length F \<le> 10" and reg: "list_all regular (take 9 F)"
    and pos: "length F = 10 \<longrightarrow> is_Tenth (F ! 9)"
    and at10: "length F = 10 \<longrightarrow>
          rollIndexAt F 9 < length rolls \<and> F ! 9 = tenthFrameAt rolls (rollIndexAt F 9)"
    using runGame_char [of rolls] by blast
  have tenth: "i = 9 \<and>
        rollIndexAt F 9 < length rolls \<and>
        roll1 (F ! i) = rolls ! rollIndexAt F 9 \<and>
        roll2 (F ! i) = rollOrZero rolls (rollIndexAt F 9 + 1) \<and>
        thirdRollAllowed (F ! i) =
          (roll1 (F ! i) = PINS \<or> uint (roll1 (F ! i)) + uint (roll2 (F ! i)) = 10) \<and>
        thirdRoll (F ! i) =
          (if thirdRollAllowed (F ! i) then rollOrZero rolls (rollIndexAt F 9 + 2) else 0) \<and>
        (length rolls \<le> rollIndexAt F 9 + 2 \<longrightarrow> thirdRoll (F ! i) = 0) \<and>
        frameContribution (scoreBoard rolls F) i =
          uint (roll1 (F ! i)) + uint (roll2 (F ! i)) + uint (thirdRoll (F ! i)) \<and>
        cumulative rolls F (length F) =
          uint (scoreBoard rolls F ! 8) + frameContribution (scoreBoard rolls F) i"
    if lt: "i < length F" and ten: "is_Tenth (F ! i)" for i
  proof -
    have "\<not> i < 9"
    proof
      assume "i < 9"
      then have "regular (F ! i)" using reg lt by (simp add: list_all_length)
      then show False using ten by (cases "F ! i") (simp_all add: regular_def)
    qed
    then have i: "i = 9" and n: "length F = 10" using lt len by simp_all
    have c: "rollIndexAt F 9 < length rolls"
      and f: "F ! 9 = tenthFrameAt rolls (rollIndexAt F 9)"
      using at10 n by simp_all
    have stored: "roll1 (F ! 9) = rolls ! rollIndexAt F 9"
      "roll2 (F ! 9) = rollOrZero rolls (rollIndexAt F 9 + 1)"
      "thirdRollAllowed (F ! 9) =
          (roll1 (F ! 9) = PINS \<or> uint (roll1 (F ! 9)) + uint (roll2 (F ! 9)) = 10)"
      "thirdRoll (F ! 9) =
          (if thirdRollAllowed (F ! 9) then rollOrZero rolls (rollIndexAt F 9 + 2) else 0)"
      by (simp_all add: f tenthFrameAt_def Let_def)
    have absent: "length rolls \<le> rollIndexAt F 9 + 2 \<longrightarrow> thirdRoll (F ! 9) = 0"
      by (simp add: f tenthFrameAt_def Let_def rollOrZero_def)
    obtain a b c d where t: "F ! 9 = Tenth a b c d"
      by (simp add: f tenthFrameAt_def Let_def)
    have points: "framePoints rolls F 9 =
        uint (roll1 (F ! 9)) + uint (roll2 (F ! 9)) + uint (thirdRoll (F ! 9))"
      by (simp add: framePoints_def Let_def t uint_score_Tenth del: score.simps)
    then have con: "frameContribution (scoreBoard rolls F) 9 =
        uint (roll1 (F ! 9)) + uint (roll2 (F ! 9)) + uint (thirdRoll (F ! 9))"
      using frameContribution_scoreBoard [of 9 F rolls] n by simp
    have "cumulative rolls F 10 = cumulative rolls F 9 + framePoints rolls F 9"
      using cumulative.simps(2) [of rolls F 9] by simp
    moreover have "uint (scoreBoard rolls F ! 8) = cumulative rolls F 9"
      using scoreBoard_nth [of 8 F rolls] n by simp
    ultimately have "cumulative rolls F (length F) =
          uint (scoreBoard rolls F ! 8) + frameContribution (scoreBoard rolls F) 9"
      using con points n by simp
    then show ?thesis
      using i c stored absent con by blast
  qed
  have body: "scoreFrame rolls f 9 (t, c, sc) =
        Some (t + uint (score f), c + (if isStrike f then 1 else 2),
              sc @ [word_of_int (t + uint (score f))])" for f t c sc
    by (simp add: scoreFrame_def)
  have seventeen: "uint (score (TenthFrame 10 4 3)) = 17"
    by (simp add: TenthFrame_def isStrikePins_def)
  show ?thesis
  proof (intro exI conjI)
    show "runGame rolls = Some (cumulative rolls F (length F),
            \<lparr>m_rolls = rolls, m_scores = scoreBoard rolls F, m_frames = F\<rparr>)"
      by (rule run)
    show "length (m_frames \<lparr>m_rolls = rolls, m_scores = scoreBoard rolls F, m_frames = F\<rparr>) = 10
        \<longrightarrow> is_Tenth (m_frames \<lparr>m_rolls = rolls, m_scores = scoreBoard rolls F, m_frames = F\<rparr> ! 9)"
      using pos by simp
    show "uint (score (TenthFrame 10 4 3)) = 17"
      by (rule seventeen)
    show "\<forall>f t c sc. scoreFrame rolls f 9 (t, c, sc) =
        Some (t + uint (score f), c + (if isStrike f then 1 else 2),
              sc @ [word_of_int (t + uint (score f))])"
      using body by blast
  qed (use tenth in \<open>simp only: game.simps\<close>, blast)
qed

theorem tenth_frame_contribution_witness:
  "runGame (replicate 16 0 @ [10, 10, 4, 3]) =
     Some (41,
       \<lparr>m_rolls = replicate 16 0 @ [10, 10, 4, 3],
        m_scores = [0, 0, 0, 0, 0, 0, 0, 0, 24, 41],
        m_frames = replicate 8 (Normal 0 0) @ [Strike 10 0, Tenth 10 4 3 True]\<rparr>) \<and>
   frameContribution [0, 0, 0, 0, 0, 0, 0, 0, 24, 41] 9 = 17 \<and>
   runGame (replicate 18 0 @ [10, 4]) =
     Some (14,
       \<lparr>m_rolls = replicate 18 0 @ [10, 4],
        m_scores = [0, 0, 0, 0, 0, 0, 0, 0, 0, 14],
        m_frames = replicate 9 (Normal 0 0) @ [Tenth 10 4 0 True]\<rparr>) \<and>
   thirdRoll ((replicate 9 (Normal 0 0) @ [Tenth 10 4 0 True]) ! 9) = 0 \<and>
   frameContribution [0, 0, 0, 0, 0, 0, 0, 0, 0, 14] 9 = 14"
proof -
  let ?rolls = "replicate 16 0 @ [10, 10, 4, 3] :: u8 list"
  let ?F = "replicate 8 (Normal 0 0) @ [Strike 10 0, Tenth 10 4 3 True]"
  let ?g = "\<lparr>m_rolls = ?rolls, m_scores = [0, 0, 0, 0, 0, 0, 0, 0, 24, 41], m_frames = ?F\<rparr>"
  have run: "runGame ?rolls = Some (41, ?g)"
    by code_simp
  have nth: "?F ! 9 = Tenth 10 4 3 True" and n: "length ?F = 10"
    by (simp_all add: nth_append)
  have "\<exists>total g. runGame ?rolls = Some (total, g) \<and>
     (\<forall>i. i < length (m_frames g) \<and> is_Tenth (m_frames g ! i) \<longrightarrow>
        frameContribution (m_scores g) i =
          uint (roll1 (m_frames g ! i)) + uint (roll2 (m_frames g ! i)) +
          uint (thirdRoll (m_frames g ! i)))"
    using tenth_frame_contribution [of ?rolls] by blast
  then have all: "\<forall>i. i < length ?F \<and> is_Tenth (?F ! i) \<longrightarrow>
        frameContribution [0, 0, 0, 0, 0, 0, 0, 0, 24, 41] i =
          uint (roll1 (?F ! i)) + uint (roll2 (?F ! i)) + uint (thirdRoll (?F ! i))"
    by (simp only: run) simp
  have first: "frameContribution [0, 0, 0, 0, 0, 0, 0, 0, 24, 41] 9 = 17"
    using all [rule_format, of 9] nth n by simp
  let ?rolls' = "replicate 18 0 @ [10, 4] :: u8 list"
  let ?F' = "replicate 9 (Normal 0 0) @ [Tenth 10 4 0 True]"
  let ?g' = "\<lparr>m_rolls = ?rolls', m_scores = [0, 0, 0, 0, 0, 0, 0, 0, 0, 14], m_frames = ?F'\<rparr>"
  have run': "runGame ?rolls' = Some (14, ?g')"
    by code_simp
  have nth': "?F' ! 9 = Tenth 10 4 0 True" and n': "length ?F' = 10"
    by (simp_all add: nth_append)
  have cur': "rollIndexAt ?F' 9 = 18"
    by code_simp
  have "\<exists>total g. runGame ?rolls' = Some (total, g) \<and>
     (\<forall>i. i < length (m_frames g) \<and> is_Tenth (m_frames g ! i) \<longrightarrow>
        (length ?rolls' \<le> rollIndexAt (m_frames g) 9 + 2 \<longrightarrow> thirdRoll (m_frames g ! i) = 0) \<and>
        frameContribution (m_scores g) i =
          uint (roll1 (m_frames g ! i)) + uint (roll2 (m_frames g ! i)) +
          uint (thirdRoll (m_frames g ! i)))"
    using tenth_frame_contribution [of ?rolls'] by blast
  then have all': "\<forall>i. i < length ?F' \<and> is_Tenth (?F' ! i) \<longrightarrow>
        (length ?rolls' \<le> rollIndexAt ?F' 9 + 2 \<longrightarrow> thirdRoll (?F' ! i) = 0) \<and>
        frameContribution [0, 0, 0, 0, 0, 0, 0, 0, 0, 14] i =
          uint (roll1 (?F' ! i)) + uint (roll2 (?F' ! i)) + uint (thirdRoll (?F' ! i))"
    by (simp only: run') simp
  have second: "thirdRoll (?F' ! 9) = 0 \<and> frameContribution [0, 0, 0, 0, 0, 0, 0, 0, 0, 14] 9 = 14"
    using all' [rule_format, of 9] nth' n' cur' by simp
  show ?thesis
    using run first run' second by simp
qed

section \<open>The factory\<close>

text \<open>
  C7. The factory chooses the variant in this order: the tenth position gives a
  \<open>TenthFrame\<close> whatever the rolls are; otherwise a first roll of 10 gives a Strike;
  otherwise two rolls that sum to 10 give a Spare; otherwise a Normal frame.
\<close>

theorem createFrame_precedence:
  "createFrame frameIndex r1 r2 r3 =
     (if frameIndex = 9 then Tenth r1 r2 r3 (r1 = PINS \<or> uint r1 + uint r2 = 10)
      else if r1 = PINS then Strike PINS 0
      else if uint r1 + uint r2 = 10 then Spare r1 (PINS - r1)
      else Normal r1 r2) \<and>
   (is_Tenth (createFrame frameIndex r1 r2 r3) \<longleftrightarrow> frameIndex = 9) \<and>
   (is_Strike (createFrame frameIndex r1 r2 r3) \<longleftrightarrow> frameIndex \<noteq> 9 \<and> r1 = PINS) \<and>
   (is_Spare (createFrame frameIndex r1 r2 r3) \<longleftrightarrow>
      frameIndex \<noteq> 9 \<and> r1 \<noteq> PINS \<and> uint r1 + uint r2 = 10) \<and>
   (is_Normal (createFrame frameIndex r1 r2 r3) \<longleftrightarrow>
      frameIndex \<noteq> 9 \<and> r1 \<noteq> PINS \<and> uint r1 + uint r2 \<noteq> 10)"
proof -
  have "uint frameIndex = 9 \<longleftrightarrow> frameIndex = 9"
    using word_uint_eq_iff [of frameIndex 9] by simp
  then show ?thesis
    by (auto simp: createFrame_def TenthFrame_def StrikeFrame_def SpareFrame_def NormalFrame_def
        isStrikePins_def isSpare_def firstRoll_def secondRoll_def Let_def)
qed

text \<open>
  C10. A Spare built by the factory stores as second roll 10 minus its first roll: it is
  \<open>SpareFrame r1\<close>, in which the factory's second-roll argument does not occur. A Strike
  built by the factory stores the rolls (10, 0). So the first satisfies \<open>isSpare\<close> and
  the second \<open>isStrike\<close>.
\<close>

theorem factory_spare_strike:
  "(is_Spare (createFrame frameIndex r1 r2 r3) \<longrightarrow>
      createFrame frameIndex r1 r2 r3 = SpareFrame r1 \<and>
      roll1 (createFrame frameIndex r1 r2 r3) = r1 \<and>
      uint (roll2 (createFrame frameIndex r1 r2 r3)) = 10 - uint r1 \<and>
      isSpare (createFrame frameIndex r1 r2 r3)) \<and>
   (is_Strike (createFrame frameIndex r1 r2 r3) \<longrightarrow>
      roll1 (createFrame frameIndex r1 r2 r3) = 10 \<and>
      roll2 (createFrame frameIndex r1 r2 r3) = 0 \<and>
      isStrike (createFrame frameIndex r1 r2 r3))"
proof (intro conjI impI)
  assume sp: "is_Spare (createFrame frameIndex r1 r2 r3)"
  then have c: "createFrame frameIndex r1 r2 r3 = SpareFrame r1"
    and ten: "uint r1 + uint r2 = 10" and ne: "r1 \<noteq> PINS"
    by (auto simp: createFrame_def TenthFrame_def StrikeFrame_def NormalFrame_def Let_def
        split: if_splits)
  have second: "uint (word_of_int (uint PINS - uint r1) :: u8) = 10 - uint r1"
    using ten by (rule uint_spare_second)
  show "createFrame frameIndex r1 r2 r3 = SpareFrame r1"
    by (rule c)
  show "roll1 (createFrame frameIndex r1 r2 r3) = r1"
    by (simp add: c SpareFrame_def)
  show "uint (roll2 (createFrame frameIndex r1 r2 r3)) = 10 - uint r1"
    using second by (simp add: c SpareFrame_def)
  show "isSpare (createFrame frameIndex r1 r2 r3)"
    using second ne by (simp add: c SpareFrame_def isSpare_def firstRoll_def secondRoll_def)
next
  assume "is_Strike (createFrame frameIndex r1 r2 r3)"
  then have c: "createFrame frameIndex r1 r2 r3 = StrikeFrame"
    by (auto simp: createFrame_def TenthFrame_def SpareFrame_def NormalFrame_def Let_def
        split: if_splits)
  show "roll1 (createFrame frameIndex r1 r2 r3) = 10"
    by (simp add: c StrikeFrame_def)
  show "roll2 (createFrame frameIndex r1 r2 r3) = 0"
    by (simp add: c StrikeFrame_def)
  show "isStrike (createFrame frameIndex r1 r2 r3)"
    by (simp add: c StrikeFrame_def isStrike_def firstRoll_def)
qed

theorem factory_spare_strike_witness:
  "is_Spare (createFrame 0 3 7 0) \<and> createFrame 0 3 7 0 = Spare 3 7 \<and>
   isSpare (createFrame 0 3 7 0) \<and>
   is_Strike (createFrame 4 10 5 0) \<and> createFrame 4 10 5 0 = Strike 10 0 \<and>
   isStrike (createFrame 4 10 5 0)"
proof -
  have sp: "createFrame 0 3 7 0 = Spare 3 7" and st: "createFrame 4 10 5 0 = Strike 10 0"
    by (simp_all add: createFrame_def SpareFrame_def StrikeFrame_def)
  have "is_Spare (createFrame 0 3 7 0)" and "is_Strike (createFrame 4 10 5 0)"
    by (simp_all add: sp st)
  then have "isSpare (createFrame 0 3 7 0)" and "isStrike (createFrame 4 10 5 0)"
    using factory_spare_strike [of 0 3 7 0] factory_spare_strike [of 4 10 5 0] by blast+
  moreover have "is_Spare (Spare 3 7)" and "is_Strike (Strike 10 0)"
    by simp_all
  ultimately show ?thesis
    by (simp add: sp st)
qed

section \<open>Concrete games\<close>

text \<open>
  C1. Twelve rolls of 10: nine strikes and the tenth frame (10, 10, 10); the cumulative
  scores are 30, 60, ..., 300 and the total is 300.
\<close>

theorem perfect_game_300:
  "runGame (replicate 12 PINS) =
     Some (300,
       \<lparr>m_rolls = replicate 12 PINS,
        m_scores = [30, 60, 90, 120, 150, 180, 210, 240, 270, 300],
        m_frames = replicate 9 (Strike PINS 0) @ [Tenth PINS PINS PINS True]\<rparr>)"
  by code_simp

text \<open>
  C5, as the program computes it. The rolls of \<open>main\<close> are cut into ten frames; the
  ninth is a Strike; the tenth frame holds the rolls (2, 8, 6), the rolls that follow the
  ninth frame's 10; the total is 133. The result is a function of the rolls alone.
\<close>

theorem example_game:
  "runGame [1, 4, 4, 5, 6, 4, 5, 5, 10, 0, 1, 7, 3, 6, 4, 10, 2, 8, 6] =
     Some (133,
       \<lparr>m_rolls = [1, 4, 4, 5, 6, 4, 5, 5, 10, 0, 1, 7, 3, 6, 4, 10, 2, 8, 6],
        m_scores = [5, 14, 29, 49, 60, 61, 77, 97, 117, 133],
        m_frames = [Normal 1 4, Normal 4 5, Spare 6 4, Spare 5 5, Strike 10 0,
                    Normal 0 1, Spare 7 3, Spare 6 4, Strike 10 0, Tenth 2 8 6 True]\<rparr>)"
  by code_simp

text \<open>
  C5, as the specification states it, fails: the tenth frame of this game does not hold
  the rolls (10, 2, 8). The 10 is the ninth frame's strike.
\<close>

theorem example_game_tenth_counterexample:
  "map_option (m_frames \<circ> snd)
     (runGame [1, 4, 4, 5, 6, 4, 5, 5, 10, 0, 1, 7, 3, 6, 4, 10, 2, 8, 6]) =
     Some [Normal 1 4, Normal 4 5, Spare 6 4, Spare 5 5, Strike 10 0,
           Normal 0 1, Spare 7 3, Spare 6 4, Strike 10 0, Tenth 2 8 6 True] \<and>
   (roll1 (Tenth 2 8 6 True), roll2 (Tenth 2 8 6 True), thirdRoll (Tenth 2 8 6 True)) \<noteq>
     (10, 2, 8)"
  by code_simp

text \<open>
  C4, as the program computes it. A single roll below 10 is cut into one frame, a Normal
  frame whose second roll is stored as 0, and the total is that roll.
\<close>

theorem single_roll_frame:
  "r < PINS \<Longrightarrow>
   runGame [r] =
     Some (uint r, \<lparr>m_rolls = [r], m_scores = [ucast r], m_frames = [Normal r 0]\<rparr>)"
proof -
  assume r: "r < PINS"
  then have lt: "uint r < 10" and ne: "r \<noteq> 10"
    by (auto simp: word_less_def)
  let ?g = "\<lparr>m_rolls = [r], m_scores = [], m_frames = []\<rparr>"
  have frame: "createFrame (of_nat 0) r 0 0 = Normal r 0"
    using lt ne by (simp add: createFrame_def NormalFrame_def)
  have "processLoop [r] [] 0 = processLoop [r] [Normal r 0] 1"
    using processLoop_step [of "[]" 0 "[r]"] frame by simp
  also have "\<dots> = Some ([Normal r 0], 1)"
    by (simp add: processLoop_stop)
  finally have pf: "processFrames ?g = Some (?g\<lparr>m_frames := [Normal r 0]\<rparr>)"
    by (simp add: processFrames_no_tenth)
  have cum: "cumulative [r] [Normal r 0] (Suc 0) = uint r"
    using lt ne
    by (simp add: cumulative.simps(2) framePoints_def isStrike_def isSpare_def firstRoll_def
        secondRoll_def uint_score_Normal del: score.simps)
  have "runGame [r] = processFrames ?g \<bind> calculateScore"
    by (simp only: runGame_def foldl_roll_newGame)
  then show ?thesis
    using pf cum by (simp add: calculateScore_char scoreBoard_def)
qed

theorem single_roll_frame_witness:
  "(5 :: u8) < PINS \<and>
   runGame [5] = Some (5, \<lparr>m_rolls = [5], m_scores = [5], m_frames = [Normal 5 0]\<rparr>)"
  using single_roll_frame [of 5] by simp

text \<open>
  C4, as the specification states it, fails: the single roll 5 gives one frame and the
  total 5, not zero frames and the total 0.
\<close>

theorem single_roll_counterexample:
  "(5 :: u8) < PINS \<and>
   map_option fst (runGame [5]) = Some 5 \<and> (5 :: int) \<noteq> 0 \<and>
   map_option (length \<circ> m_frames \<circ> snd) (runGame [5]) = Some 1 \<and> (1 :: nat) \<noteq> 0"
  by code_simp

section \<open>Games without strikes and spares\<close>

lemma openFrames_pair:
  "openFrames rolls \<Longrightarrow> k < 10 \<Longrightarrow> uint (rolls ! (2 * k)) + uint (rolls ! (2 * k + 1)) < 10"
  by (simp add: openFrames_def list_all_iff)

lemma open_first_roll: "uint r1 + uint r2 < 10 \<Longrightarrow> (r1 :: u8) \<noteq> PINS"
proof
  assume "uint r1 + uint r2 < 10" and "r1 = PINS"
  then have "10 + uint r2 < 10" by simp
  then show False using uint_ge_0 [of r2] by linarith
qed

lemma createFrame_open:
  "n < 9 \<Longrightarrow> uint r1 + uint r2 < 10 \<Longrightarrow> createFrame (of_nat n) r1 r2 r3 = Normal r1 r2"
  using open_first_roll [of r1 r2]
  by (simp add: createFrame_def uint_frame_index NormalFrame_def del: of_nat_diff)

text \<open>The frames that segmentation builds from the first eighteen rolls.\<close>

lemma processLoop_open:
  assumes len: "length rolls = 20" and op: "openFrames rolls"
  shows "processLoop rolls [] 0 =
           Some (map (\<lambda>j. Normal (rolls ! (2 * j)) (rolls ! (2 * j + 1))) [0..<9], 18)"
proof -
  let ?N = "\<lambda>j. Normal (rolls ! (2 * j)) (rolls ! (2 * j + 1))"
  let ?I = "\<lambda>fs k. k = 2 * length fs \<and> length fs \<le> 9 \<and> fs = map ?N [0..<length fs]"
  have "\<exists>fs' k'. processLoop rolls [] 0 = Some (fs', k') \<and> ?I fs' k' \<and>
           \<not> (length fs' < 9 \<and> k' < length rolls)"
  proof (rule processLoop_rule [where I = ?I])
    show "?I [] 0" by simp
  next
    fix fs :: "frame list" and k :: nat
    assume inv: "?I fs k" and n: "length fs < 9" and "k < length rolls"
    have pair: "uint (rolls ! (2 * length fs)) + uint (rolls ! (2 * length fs + 1)) < 10"
      using openFrames_pair [OF op, of "length fs"] n by simp
    then have ne: "rolls ! (2 * length fs) \<noteq> PINS"
      by (rule open_first_roll)
    have k: "k = 2 * length fs" and fs: "fs = map ?N [0..<length fs]"
      using inv by simp_all
    have next_in: "k + 1 < length rolls"
      using k n len by simp
    have frame: "createFrame (of_nat (length fs)) (rolls ! k) (rolls ! (k + 1)) 0 = ?N (length fs)"
      using createFrame_open [OF n pair] k by simp
    have "fs @ [?N (length fs)] = map ?N [0..<length (fs @ [?N (length fs)])]"
      using fs by simp
    then show "?I (fs @ [createFrame (of_nat (length fs)) (rolls ! k)
                 (if rolls ! k \<noteq> PINS \<and> k + 1 < length rolls then rolls ! (k + 1) else 0) 0])
        (if rolls ! k \<noteq> PINS \<and> k + 1 < length rolls then k + 2 else k + 1)"
      using ne next_in frame n k by simp
  qed
  then obtain fs' k' where res: "processLoop rolls [] 0 = Some (fs', k')"
    and inv: "?I fs' k'" and exit: "\<not> (length fs' < 9 \<and> k' < length rolls)"
    by blast
  have "length fs' = 9"
    using inv exit len by auto
  then show ?thesis
    using res inv by simp
qed

lemma processFrames_open:
  assumes len: "length (m_rolls g) = 20" and op: "openFrames (m_rolls g)"
  shows "processFrames g =
           Some (g\<lparr>m_frames :=
             map (\<lambda>j. Normal (m_rolls g ! (2 * j)) (m_rolls g ! (2 * j + 1))) [0..<9] @
             [Tenth (m_rolls g ! 18) (m_rolls g ! 19) 0 False]\<rparr>)"
proof -
  have pair: "uint (m_rolls g ! 18) + uint (m_rolls g ! 19) < 10"
    using openFrames_pair [OF op, of 9] by simp
  then have ne: "m_rolls g ! 18 \<noteq> PINS"
    by (rule open_first_roll)
  have "TenthFrame (m_rolls g ! 18) (m_rolls g ! 19) 0 =
          Tenth (m_rolls g ! 18) (m_rolls g ! 19) 0 False"
    using pair ne
    by (simp add: TenthFrame_def isStrikePins_def isSpare_def firstRoll_def secondRoll_def)
  then show ?thesis
    using processFrames_tenth [OF processLoop_open [OF len op]] len
    by (simp add: rollOrZero_def)
qed

lemma cumulative_open:
  assumes len: "length rolls = 20" and op: "openFrames rolls"
    and F: "F = map (\<lambda>j. Normal (rolls ! (2 * j)) (rolls ! (2 * j + 1))) [0..<9] @
                [Tenth (rolls ! 18) (rolls ! 19) 0 False]"
  shows "n \<le> 10 \<Longrightarrow> cumulative rolls F n = sum_list (map uint (take (2 * n) rolls))"
proof (induction n)
  case 0
  show ?case by simp
next
  case (Suc n)
  then have n: "n < 10" by simp
  have pair: "uint (rolls ! (2 * n)) + uint (rolls ! (2 * n + 1)) < 10"
    using op n by (rule openFrames_pair)
  then have ne: "rolls ! (2 * n) \<noteq> PINS"
    by (rule open_first_roll)
  have points: "framePoints rolls F n = uint (rolls ! (2 * n)) + uint (rolls ! (2 * n + 1))"
  proof (cases "n < 9")
    case True
    then have "F ! n = Normal (rolls ! (2 * n)) (rolls ! (2 * n + 1))"
      by (simp add: F nth_append)
    then show ?thesis
      using pair ne
      by (simp add: framePoints_def Let_def isStrike_def isSpare_def firstRoll_def
          secondRoll_def uint_score_Normal del: score.simps)
  next
    case False
    then have nine: "n = 9" using n by simp
    then have "F ! n = Tenth (rolls ! 18) (rolls ! 19) 0 False"
      by (simp add: F nth_append)
    then show ?thesis
      using nine by (simp add: framePoints_def Let_def uint_score_Tenth del: score.simps)
  qed
  have "take (2 * Suc n) rolls = take (2 * n) rolls @ [rolls ! (2 * n), rolls ! (2 * n + 1)]"
    using n len by (simp add: take_Suc_conv_app_nth)
  then show ?case
    using Suc points by (simp add: cumulative.simps(2))
qed

text \<open>
  C6. For twenty rolls in which each of the ten consecutive pairs sums to less than 10,
  the total is the sum of the twenty rolls.
\<close>

theorem open_game_total:
  assumes "length rolls = 20" and "openFrames rolls"
  shows "\<exists>g. runGame rolls = Some (sum_list (map uint rolls), g) \<and> length (m_frames g) = 10"
proof -
  let ?g = "\<lparr>m_rolls = rolls, m_scores = [], m_frames = []\<rparr>"
  let ?F = "map (\<lambda>j. Normal (rolls ! (2 * j)) (rolls ! (2 * j + 1))) [0..<9] @
              [Tenth (rolls ! 18) (rolls ! 19) 0 False]"
  have pf: "processFrames ?g = Some (?g\<lparr>m_frames := ?F\<rparr>)"
    using processFrames_open [of ?g] assms by simp
  have "cumulative rolls ?F 10 = sum_list (map uint (take (2 * 10) rolls))"
    using cumulative_open [OF assms refl, of 10] by simp
  then have total: "cumulative rolls ?F 10 = sum_list (map uint rolls)"
    using assms(1) by simp
  have "runGame rolls = processFrames ?g \<bind> calculateScore"
    by (simp only: runGame_def foldl_roll_newGame)
  then show ?thesis
    using pf total by (simp add: calculateScore_char)
qed

theorem open_game_total_witness:
  "length [1, 2, 3, 4, 5, 4, 3, 2, 1, 0, 9, 0, 0, 9, 4, 4, 6, 3, 2, 1 :: u8] = 20 \<and>
   openFrames [1, 2, 3, 4, 5, 4, 3, 2, 1, 0, 9, 0, 0, 9, 4, 4, 6, 3, 2, 1] \<and>
   map_option fst (runGame [1, 2, 3, 4, 5, 4, 3, 2, 1, 0, 9, 0, 0, 9, 4, 4, 6, 3, 2, 1]) =
     Some 63"
proof -
  let ?rolls = "[1, 2, 3, 4, 5, 4, 3, 2, 1, 0, 9, 0, 0, 9, 4, 4, 6, 3, 2, 1] :: u8 list"
  have l: "length ?rolls = 20" by simp
  have o: "openFrames ?rolls" by code_simp
  have "sum_list (map uint ?rolls) = 63" by simp
  then show ?thesis
    using open_game_total [OF l o] l o by auto
qed


end
